theory Spec2Isabelle
  imports Main "HOL-Library.Sublist"
begin

section \<open>Python strings\<close>

text \<open>
  A Python \<^verbatim>\<open>str\<close> is a sequence of Unicode code points. A code point is modelled as a
  natural number and a string as the list of its code points, so that the regular
  expressions of \<^verbatim>\<open>main.py\<close> are judged on every character a caller can send and
  not on bytes. \<open>ord\<close> is Python's \<^verbatim>\<open>ord\<close> on the characters that can be written in a
  literal of this theory, \<open>py\<close> turns such a literal into a Python string.
\<close>

type_synonym codepoint = nat
type_synonym pystr = "codepoint list"

definition ord :: "char \<Rightarrow> codepoint" where
  "ord c = of_char c"

definition py :: "string \<Rightarrow> pystr" where
  "py s = map ord s"

text \<open>Code points that have no convenient literal.\<close>

definition LF :: codepoint where "LF = 0x0A"
definition CR :: codepoint where "CR = 0x0D"
definition quote :: codepoint where "quote = 0x27"
definition dquote :: codepoint where "dquote = 0x22"

text \<open>
  \<^verbatim>\<open>str.isspace\<close> on one character, which is also what \<^verbatim>\<open>\s\<close> matches in a
  \<^verbatim>\<open>str\<close> pattern compiled without \<^verbatim>\<open>re.ASCII\<close>: the characters of
  \<^verbatim>\<open>[ \t\n\r\f\v]\<close>, the information separators, NEL, the no-break space and the
  Unicode space separators.
\<close>

definition py_isspace :: "codepoint \<Rightarrow> bool" where
  "py_isspace c \<longleftrightarrow>
     (0x09 \<le> c \<and> c \<le> 0x0D) \<or> (0x1C \<le> c \<and> c \<le> 0x1F) \<or> c = 0x20 \<or> c = 0x85 \<or> c = 0xA0 \<or>
     c = 0x1680 \<or> (0x2000 \<le> c \<and> c \<le> 0x200A) \<or> c = 0x2028 \<or> c = 0x2029 \<or>
     c = 0x202F \<or> c = 0x205F \<or> c = 0x3000"

text \<open>
  The line boundaries of \<^verbatim>\<open>str.splitlines\<close>: LF, VT, FF, CR, FS, GS, RS, NEL, LS and
  PS (CR LF counts as one boundary, see \<open>splitlines\<close> below).
\<close>

definition py_islinebreak :: "codepoint \<Rightarrow> bool" where
  "py_islinebreak c \<longleftrightarrow>
     (0x0A \<le> c \<and> c \<le> 0x0D) \<or> (0x1C \<le> c \<and> c \<le> 0x1E) \<or> c = 0x85 \<or> c = 0x2028 \<or> c = 0x2029"

text \<open>The operator \<^verbatim>\<open>needle in haystack\<close> on strings: some suffix starts with the needle.\<close>

fun contains :: "pystr \<Rightarrow> pystr \<Rightarrow> bool" where
  "contains needle [] = (needle = [])"
| "contains needle (c # cs) = (prefix needle (c # cs) \<or> contains needle cs)"

text \<open>
  \<^verbatim>\<open>str(n)\<close> for an integer: the decimal digits, most significant first, after a minus
  sign when the number is negative. Python's integers are unbounded, and so is
  \<open>int\<close>. (The interpreter's configurable cap on the number of digits of such a
  conversion is a setting of the runtime and is not part of this model.)
\<close>

fun digits :: "nat \<Rightarrow> pystr" where
  "digits n = (if n < 10 then [ord CHR ''0'' + n] else digits (n div 10) @ [ord CHR ''0'' + n mod 10])"

definition str_int :: "int \<Rightarrow> pystr" where
  "str_int i = (if i < 0 then ord CHR ''-'' # digits (nat (- i)) else digits (nat i))"

text \<open>
  \<^verbatim>\<open>str.splitlines()\<close> (\<^verbatim>\<open>keepends=False\<close>): the scan keeps the line read so far in
  \<open>cur\<close>, closes it at every line boundary, takes CR LF as one boundary, and at the
  end of the text emits the open line only when it is not empty, so a final line break
  adds no empty entry.
\<close>

fun splitlines_from :: "pystr \<Rightarrow> pystr \<Rightarrow> pystr list" where
  "splitlines_from cur [] = (if cur = [] then [] else [cur])"
| "splitlines_from cur [c] = (if py_islinebreak c then [cur] else [cur @ [c]])"
| "splitlines_from cur (c # d # cs) =
     (if py_islinebreak c then
        (if c = CR \<and> d = LF then cur # splitlines_from [] cs
         else cur # splitlines_from [] (d # cs))
      else splitlines_from (cur @ [c]) (d # cs))"

definition splitlines :: "pystr \<Rightarrow> pystr list" where
  "splitlines s = splitlines_from [] s"

section \<open>The fragment of Python's \<^verbatim>\<open>re\<close> that the two patterns use\<close>

text \<open>
  A character set \<^verbatim>\<open>[...]\<close> is a list of items: a range \<^verbatim>\<open>a-z\<close>, a single (possibly
  escaped) character, or the category \<^verbatim>\<open>\s\<close>.
\<close>

datatype cset_item = Range codepoint codepoint | Lit codepoint | Space

fun item_mem :: "cset_item \<Rightarrow> codepoint \<Rightarrow> bool" where
  "item_mem (Range lo hi) c = (lo \<le> c \<and> c \<le> hi)"
| "item_mem (Lit l) c = (c = l)"
| "item_mem Space c = py_isspace c"

definition cset_mem :: "cset_item list \<Rightarrow> codepoint \<Rightarrow> bool" where
  "cset_mem items c = list_ex (\<lambda>i. item_mem i c) items"

text \<open>
  Patterns: \<^verbatim>\<open>^\<close>, \<^verbatim>\<open>$\<close>, one literal character, a character set, concatenation and
  \<^verbatim>\<open>*\<close>; \<^verbatim>\<open>r+\<close> is \<^verbatim>\<open>r\<close> followed by \<^verbatim>\<open>r*\<close>.
\<close>

datatype regex =
    Bol
  | Eol
  | Chr codepoint
  | Cset "cset_item list"
  | Seq regex regex
  | Star regex

definition Plus :: "regex \<Rightarrow> regex" where
  "Plus r = Seq r (Star r)"

text \<open>
  The matcher explores every way the backtracking engine can match \<open>r\<close> at the current
  position: \<open>re_match n r s\<close> lists what can remain of the text \<open>s\<close> after a match of
  \<open>r\<close> at its front, in a subject string of length \<open>n\<close> (the position is
  \<open>n - length s\<close>). Without \<^verbatim>\<open>re.MULTILINE\<close>, \<^verbatim>\<open>^\<close> matches at position 0 only and
  \<^verbatim>\<open>$\<close> at the end of the string or just before a newline that ends the string. An
  iteration of \<^verbatim>\<open>*\<close> that consumes nothing is not repeated.
\<close>

fun re_match :: "nat \<Rightarrow> regex \<Rightarrow> pystr \<Rightarrow> pystr list" where
  "re_match n Bol s = (if length s = n then [s] else [])"
| "re_match n Eol s = (if s = [] \<or> s = [LF] then [s] else [])"
| "re_match n (Chr c) s = (case s of [] \<Rightarrow> [] | d # t \<Rightarrow> if d = c then [t] else [])"
| "re_match n (Cset items) s = (case s of [] \<Rightarrow> [] | d # t \<Rightarrow> if cset_mem items d then [t] else [])"
| "re_match n (Seq r1 r2) s = concat (map (re_match n r2) (re_match n r1 s))"
| "re_match n (Star r) s =
     s # concat (map (\<lambda>t. if length t < length s then re_match n (Star r) t else [])
                     (re_match n r s))"

text \<open>\<^verbatim>\<open>Pattern.fullmatch\<close>: some match of the pattern from position 0 ends at the end of the string.\<close>

definition fullmatch :: "regex \<Rightarrow> pystr \<Rightarrow> bool" where
  "fullmatch r s = ([] \<in> set (re_match (length s) r s))"

section \<open>The validators of \<^verbatim>\<open>main.py\<close>\<close>

text \<open>\<^verbatim>\<open>^[a-zA-Z0-9_\-]+(\.[a-zA-Z0-9_]+)*$\<close>\<close>

definition ALLOWED_TOPIC_INPUT :: regex where
  "ALLOWED_TOPIC_INPUT =
     Seq Bol
      (Seq (Plus (Cset [Range (ord CHR ''a'') (ord CHR ''z''), Range (ord CHR ''A'') (ord CHR ''Z''),
                        Range (ord CHR ''0'') (ord CHR ''9''), Lit (ord CHR ''_''), Lit (ord CHR ''-'')]))
        (Seq (Star (Seq (Chr (ord CHR ''.''))
                        (Plus (Cset [Range (ord CHR ''a'') (ord CHR ''z''), Range (ord CHR ''A'') (ord CHR ''Z''),
                                     Range (ord CHR ''0'') (ord CHR ''9''), Lit (ord CHR ''_'')]))))
          Eol))"

text \<open>\<^verbatim>\<open>^[a-zA-Z0-9\s\.\,\:\/'\"\(\)\[\]\{\}\*\+\?\|\^\$_\-]+$\<close>\<close>

definition ALLOWED_SEARCH_INPUT :: regex where
  "ALLOWED_SEARCH_INPUT =
     Seq Bol
      (Seq (Plus (Cset [Range (ord CHR ''a'') (ord CHR ''z''), Range (ord CHR ''A'') (ord CHR ''Z''),
                        Range (ord CHR ''0'') (ord CHR ''9''), Space,
                        Lit (ord CHR ''.''), Lit (ord CHR '',''), Lit (ord CHR '':''), Lit (ord CHR ''/''),
                        Lit quote, Lit dquote,
                        Lit (ord CHR ''(''), Lit (ord CHR '')''), Lit (ord CHR ''[''), Lit (ord CHR '']''),
                        Lit (ord CHR ''{''), Lit (ord CHR ''}''), Lit (ord CHR ''*''), Lit (ord CHR ''+''),
                        Lit (ord CHR ''?''), Lit (ord CHR ''|''), Lit (ord CHR ''^''), Lit (ord CHR ''$''),
                        Lit (ord CHR ''_''), Lit (ord CHR ''-'')]))
        Eol)"

definition validate_topic :: "pystr \<Rightarrow> bool" where
  "validate_topic input = fullmatch ALLOWED_TOPIC_INPUT input"

definition validate_search_query :: "pystr \<Rightarrow> bool" where
  "validate_search_query input = fullmatch ALLOWED_SEARCH_INPUT input"

section \<open>Result types\<close>

text \<open>
  The four outcome classes and the envelope \<^verbatim>\<open>ManResult\<close>, whose single field holds one
  of them. The field \<^verbatim>\<open>note\<close> of the two error classes and the field \<^verbatim>\<open>text\<close> of
  \<^verbatim>\<open>ManPage\<close> are renamed, since these words are reserved here.
\<close>

record InputValidationError =
  input :: pystr
  val_note :: pystr

record ManError =
  stdout :: pystr
  stderr :: pystr
  return_code :: int
  err_note :: pystr

record ManSearchResult =
  results :: "pystr list"

record ManPage =
  page_text :: pystr

datatype variant =
    Error ManError
  | Search ManSearchResult
  | Page ManPage
  | Invalid InputValidationError

record ManResult =
  result :: variant

section \<open>The external process\<close>

text \<open>
  What \<^verbatim>\<open>subprocess.run(args, capture_output=True, timeout=5, text=True)\<close> hands back
  when it returns: the exit status and the two captured streams, as text.
\<close>

record CompletedProcess =
  returncode :: int
  proc_stdout :: pystr
  proc_stderr :: pystr

text \<open>
  What it raises when it does not return. Each constructor carries \<^verbatim>\<open>str(ex)\<close>.
  \<open>TimeoutExpired\<close> is \<^verbatim>\<open>subprocess.TimeoutExpired\<close>; \<open>Exception\<close> stands for every
  other instance of \<^verbatim>\<open>Exception\<close> (a missing binary, an I/O or decoding error);
  \<open>BaseException\<close> for what is no instance of \<^verbatim>\<open>Exception\<close> (an interrupt, an exit
  request), which no handler of \<^verbatim>\<open>main.py\<close> names.
\<close>

datatype raised =
    TimeoutExpired pystr
  | Exception pystr
  | BaseException pystr

text \<open>
  The program's only effect that a caller can observe besides its result is the launch of
  the external program. The state records the argument vector of every call of
  \<^verbatim>\<open>subprocess.run\<close>, oldest first, whether the call returns or raises. (The log
  records that the functions emit are left out.) The external program is a parameter
  \<open>run\<close> of each operation: its answer to an argument vector.
\<close>

record world =
  sp_calls :: "pystr list list"

type_synonym subprocess = "pystr list \<Rightarrow> raised + CompletedProcess"

section \<open>\<^verbatim>\<open>execute_call\<close>\<close>

definition execute_call ::
  "subprocess \<Rightarrow> pystr list \<Rightarrow> world \<Rightarrow> (raised + (ManError + CompletedProcess)) \<times> world" where
  "execute_call run args w =
     (let w' = w\<lparr>sp_calls := sp_calls w @ [args]\<rparr> in
      case run args of
        Inl (TimeoutExpired ex) \<Rightarrow>
          (Inr (Inl \<lparr>stdout = [], stderr = [], return_code = - 1,
                     err_note = py ''Timeout exception '' @ ex @ py ''.''\<rparr>), w')
      | Inl (Exception ex) \<Rightarrow>
          (Inr (Inl \<lparr>stdout = [], stderr = [], return_code = - 1,
                     err_note = py ''Unknown exception '' @ ex @ py ''.''\<rparr>), w')
      | Inl (BaseException ex) \<Rightarrow> (Inl (BaseException ex), w')
      | Inr process \<Rightarrow>
          (let note0 = [];
               note1 = (if proc_stderr process \<noteq> []
                        then note0 @ py ''Unexpected error encountered: '' @ proc_stderr process @ [LF]
                        else note0);
               note2 = (if contains (py ''No manual entry for '') (proc_stdout process)
                        then note1 @ proc_stdout process @ [LF]
                        else note1);
               note3 = (if returncode process \<noteq> 0
                        then note2 @ py ''Non zero return code `'' @ str_int (returncode process)
                               @ py ''`'' @ [LF]
                        else note2)
           in if note3 \<noteq> []
              then (Inr (Inl \<lparr>stdout = proc_stdout process, stderr = proc_stderr process,
                               return_code = returncode process, err_note = note3\<rparr>), w')
              else (Inr (Inr process), w')))"

section \<open>The two tools\<close>

definition search_descriptions :: "subprocess \<Rightarrow> pystr \<Rightarrow> world \<Rightarrow> (raised + ManResult) \<times> world" where
  "search_descriptions run query w =
     (if \<not> validate_search_query query
      then (Inr \<lparr>result = Invalid \<lparr>input = query,
                                     val_note = py ''Query contains invalid characters''\<rparr>\<rparr>, w)
      else
        (case execute_call run [py ''man'', py ''-k'', query] w of
           (Inl ex, w') \<Rightarrow> (Inl ex, w')
         | (Inr (Inl err), w') \<Rightarrow> (Inr \<lparr>result = Error err\<rparr>, w')
         | (Inr (Inr out), w') \<Rightarrow>
             (Inr \<lparr>result = Search \<lparr>results = splitlines (proc_stdout out)\<rparr>\<rparr>, w')))"

text \<open>The truth value of \<^verbatim>\<open>section: int | None\<close> in \<^verbatim>\<open>if section:\<close>\<close>

fun truthy :: "int option \<Rightarrow> bool" where
  "truthy None = False"
| "truthy (Some n) = (n \<noteq> 0)"

definition get_manpage ::
  "subprocess \<Rightarrow> pystr \<Rightarrow> int option \<Rightarrow> world \<Rightarrow> (raised + ManResult) \<times> world" where
  "get_manpage run page section w =
     (if \<not> validate_topic page
      then (Inr \<lparr>result = Invalid \<lparr>input = page,
              val_note =
                py ''Page name must contain only alphanumeric characters, underscores and dashes. ''
                @ py ''Optionally followed by a '' @ [quote] @ py ''.'' @ [quote]
                @ py '' and number for section.''\<rparr>\<rparr>, w)
      else
        (let args = (if truthy section then [py ''man'', str_int (the section), page]
                     else [py ''man'', page])
         in case execute_call run args w of
              (Inl ex, w') \<Rightarrow> (Inl ex, w')
            | (Inr (Inl err), w') \<Rightarrow> (Inr \<lparr>result = Error err\<rparr>, w')
            | (Inr (Inr out), w') \<Rightarrow> (Inr \<lparr>result = Page \<lparr>page_text = proc_stdout out\<rparr>\<rparr>, w')))"

section \<open>The language of a pattern\<close>

text \<open>
  The words a pattern without anchors denotes, in the usual sense: the reference against
  which the matcher is checked.
\<close>

inductive_set star :: "pystr set \<Rightarrow> pystr set" for A :: "pystr set" where
  star_nil: "[] \<in> star A"
| star_app: "u \<in> A \<Longrightarrow> v \<in> star A \<Longrightarrow> u @ v \<in> star A"

fun lang :: "regex \<Rightarrow> pystr set" where
  "lang Bol = {[]}"
| "lang Eol = {[]}"
| "lang (Chr c) = {[c]}"
| "lang (Cset items) = {[c] | c. cset_mem items c}"
| "lang (Seq r1 r2) = {u @ v | u v. u \<in> lang r1 \<and> v \<in> lang r2}"
| "lang (Star r) = star (lang r)"

fun anchor_free :: "regex \<Rightarrow> bool" where
  "anchor_free Bol = False"
| "anchor_free Eol = False"
| "anchor_free (Chr c) = True"
| "anchor_free (Cset items) = True"
| "anchor_free (Seq r1 r2) = (anchor_free r1 \<and> anchor_free r2)"
| "anchor_free (Star r) = anchor_free r"

section \<open>The vocabulary of the specification\<close>

text \<open>
  The character classes as the specification words them: letters \<^verbatim>\<open>A-Z a-z\<close>, digits
  \<^verbatim>\<open>0-9\<close>, the characters of the first segment of a topic and of its dotted suffixes,
  the punctuation \<^verbatim>\<open>. , : / ' " ( ) [ ] { } * + ? | ^ $ _ -\<close> of a search query, and the
  shell metacharacters \<^verbatim>\<open>; | & $ ` ( ) < >\<close> and newline.
\<close>

definition ascii_letter :: "codepoint \<Rightarrow> bool" where
  "ascii_letter c \<longleftrightarrow> (ord CHR ''A'' \<le> c \<and> c \<le> ord CHR ''Z'') \<or> (ord CHR ''a'' \<le> c \<and> c \<le> ord CHR ''z'')"

definition ascii_digit :: "codepoint \<Rightarrow> bool" where
  "ascii_digit c \<longleftrightarrow> ord CHR ''0'' \<le> c \<and> c \<le> ord CHR ''9''"

definition topic_first_char :: "codepoint \<Rightarrow> bool" where
  "topic_first_char c \<longleftrightarrow> ascii_letter c \<or> ascii_digit c \<or> c = ord CHR ''_'' \<or> c = ord CHR ''-''"

definition topic_suffix_char :: "codepoint \<Rightarrow> bool" where
  "topic_suffix_char c \<longleftrightarrow> ascii_letter c \<or> ascii_digit c \<or> c = ord CHR ''_''"

definition search_punctuation :: "codepoint list" where
  "search_punctuation = py ''.,:/'' @ [quote, dquote] @ py ''()[]{}*+?|^$_-''"

definition search_char :: "codepoint \<Rightarrow> bool" where
  "search_char c \<longleftrightarrow> ascii_letter c \<or> ascii_digit c \<or> py_isspace c \<or> c \<in> set search_punctuation"

definition shell_metachars :: "codepoint list" where
  "shell_metachars = py '';|&$`()<>'' @ [LF]"

section \<open>Simulated external programs\<close>

text \<open>
  Stand-ins for the external program, as the test suite's mocks of \<^verbatim>\<open>subprocess.run\<close>:
  one that completes with a given result whatever the arguments, one that exceeds the
  timeout, one that cannot be launched. \<open>fresh\<close> is the state before any launch.
\<close>

definition completes_with :: "CompletedProcess \<Rightarrow> subprocess" where
  "completes_with p args = Inr p"

definition timing_out :: "pystr \<Rightarrow> subprocess" where
  "timing_out ex args = Inl (TimeoutExpired ex)"


definition fresh :: world where
  "fresh = \<lparr>sp_calls = []\<rparr>"


section \<open>The matcher computes the language\<close>

lemmas re_match_Star = re_match.simps(6)

declare re_match.simps(6) [simp del]

lemma re_match_Star_sound:
  assumes body: "\<And>s t. t \<in> set (re_match n r s) \<Longrightarrow> \<exists>u\<in>lang r. s = u @ t"
  shows "t \<in> set (re_match n (Star r) s) \<Longrightarrow> \<exists>u\<in>star (lang r). s = u @ t"
proof (induction "length s" arbitrary: s rule: less_induct)
  case less
  from less.prems consider "t = s"
    | t1 where "t1 \<in> set (re_match n r s)" "length t1 < length s" "t \<in> set (re_match n (Star r) t1)"
    by (subst (asm) re_match_Star) (auto split: if_splits)
  then show ?case
  proof cases
    case 1
    then show ?thesis using star_nil by auto
  next
    case 2
    from body [OF 2(1)] obtain u1 where u1: "u1 \<in> lang r" "s = u1 @ t1" by blast
    from less.hyps [OF 2(2) 2(3)] obtain u2 where u2: "u2 \<in> star (lang r)" "t1 = u2 @ t" by blast
    from u1 u2 have "u1 @ u2 \<in> star (lang r)" "s = (u1 @ u2) @ t"
      by (auto intro: star_app)
    then show ?thesis by blast
  qed
qed

lemma re_match_Star_complete:
  assumes body: "\<And>s t u. u \<in> lang r \<Longrightarrow> s = u @ t \<Longrightarrow> t \<in> set (re_match n r s)"
  shows "u \<in> star (lang r) \<Longrightarrow> t \<in> set (re_match n (Star r) (u @ t))"
proof (induction rule: star.induct)
  case star_nil
  show ?case by (subst re_match_Star) simp
next
  case (star_app u v)
  show ?case
  proof (cases "u = []")
    case True
    with star_app.IH show ?thesis by simp
  next
    case False
    have "v @ t \<in> set (re_match n r ((u @ v) @ t))"
      using body [OF star_app.hyps(1)] by simp
    moreover have "length (v @ t) < length ((u @ v) @ t)"
      using False by simp
    ultimately show ?thesis
      using star_app.IH by (subst re_match_Star) force
  qed
qed



lemma re_match_Seq_iff:
  "t \<in> set (re_match n (Seq r1 r2) s) \<longleftrightarrow> (\<exists>m\<in>set (re_match n r1 s). t \<in> set (re_match n r2 m))"
  by simp

lemma re_match_lang:
  "anchor_free r \<Longrightarrow> t \<in> set (re_match n r s) \<longleftrightarrow> (\<exists>u\<in>lang r. s = u @ t)"
proof (induction r arbitrary: s t)
  case (Chr c)
  show ?case by (cases s) auto
next
  case (Cset items)
  show ?case by (cases s) auto
next
  case (Seq r1 r2)
  then have ih1: "\<And>s t. t \<in> set (re_match n r1 s) \<longleftrightarrow> (\<exists>u\<in>lang r1. s = u @ t)"
    and ih2: "\<And>s t. t \<in> set (re_match n r2 s) \<longleftrightarrow> (\<exists>u\<in>lang r2. s = u @ t)"
    by simp_all
  show ?case
  proof
    assume "t \<in> set (re_match n (Seq r1 r2) s)"
    then obtain m where "m \<in> set (re_match n r1 s)" "t \<in> set (re_match n r2 m)"
      unfolding re_match_Seq_iff by blast
    then obtain u v where "u \<in> lang r1" "s = u @ m" "v \<in> lang r2" "m = v @ t"
      unfolding ih1 ih2 by blast
    then have "u @ v \<in> lang (Seq r1 r2)" "s = (u @ v) @ t" by auto
    then show "\<exists>w\<in>lang (Seq r1 r2). s = w @ t" by blast
  next
    assume "\<exists>w\<in>lang (Seq r1 r2). s = w @ t"
    then obtain u v where uv: "u \<in> lang r1" "v \<in> lang r2" "s = (u @ v) @ t" by auto
    then have "v @ t \<in> set (re_match n r1 s)" "t \<in> set (re_match n r2 (v @ t))"
      unfolding ih1 ih2 by auto
    then show "t \<in> set (re_match n (Seq r1 r2) s)"
      unfolding re_match_Seq_iff by blast
  qed
next
  case (Star r)
  then have ih: "\<And>s t. t \<in> set (re_match n r s) \<longleftrightarrow> (\<exists>u\<in>lang r. s = u @ t)"
    by simp
  show ?case
  proof
    assume "t \<in> set (re_match n (Star r) s)"
    then have "\<exists>u\<in>star (lang r). s = u @ t"
      by (rule re_match_Star_sound [rotated]) (simp only: ih)
    then show "\<exists>u\<in>lang (Star r). s = u @ t" by simp
  next
    assume "\<exists>u\<in>lang (Star r). s = u @ t"
    then obtain u where u: "u \<in> star (lang r)" "s = u @ t" by auto
    have "t \<in> set (re_match n (Star r) (u @ t))"
    proof (rule re_match_Star_complete [OF _ u(1)])
      fix s' t' u' assume "u' \<in> lang r" "s' = u' @ t'"
      then show "t' \<in> set (re_match n r s')" unfolding ih by blast
    qed
    with u(2) show "t \<in> set (re_match n (Star r) s)" by simp
  qed
qed simp_all


lemma star_concat: "u \<in> star A \<longleftrightarrow> (\<exists>ws. u = concat ws \<and> set ws \<subseteq> A)"
proof
  assume "u \<in> star A"
  then show "\<exists>ws. u = concat ws \<and> set ws \<subseteq> A"
  proof (induction rule: star.induct)
    case star_nil
    have "[] = concat [] \<and> set ([] :: pystr list) \<subseteq> A" by simp
    then show ?case by blast
  next
    case (star_app u v)
    then obtain ws where "v = concat ws" "set ws \<subseteq> A" by blast
    with star_app.hyps(1) have "u @ v = concat (u # ws) \<and> set (u # ws) \<subseteq> A" by simp
    then show ?case by blast
  qed
next
  assume "\<exists>ws. u = concat ws \<and> set ws \<subseteq> A"
  then obtain ws where "u = concat ws" "set ws \<subseteq> A" by blast
  then show "u \<in> star A"
    by (induction ws arbitrary: u) (auto intro: star.intros)
qed

lemma star_chars: "v \<in> star {[c] | c. P c} \<longleftrightarrow> (\<forall>c\<in>set v. P c)"
proof
  assume "v \<in> star {[c] | c. P c}"
  then show "\<forall>c\<in>set v. P c"
    by (induction rule: star.induct) auto
next
  assume "\<forall>c\<in>set v. P c"
  then show "v \<in> star {[c] | c. P c}"
  proof (induction v)
    case Nil
    show ?case by (rule star_nil)
  next
    case (Cons c v)
    then have "[c] \<in> {[c] | c. P c}" "v \<in> star {[c] | c. P c}" by auto
    then have "[c] @ v \<in> star {[c] | c. P c}" by (rule star_app)
    then show ?case by simp
  qed
qed

lemma lang_Plus_Cset:
  "u \<in> lang (Plus (Cset items)) \<longleftrightarrow> u \<noteq> [] \<and> (\<forall>c\<in>set u. cset_mem items c)"
proof -
  have "u \<in> lang (Plus (Cset items)) \<longleftrightarrow>
        (\<exists>c v. u = c # v \<and> cset_mem items c \<and> v \<in> star {[c] | c. cset_mem items c})"
  proof
    assume "u \<in> lang (Plus (Cset items))"
    then show "\<exists>c v. u = c # v \<and> cset_mem items c \<and> v \<in> star {[c] | c. cset_mem items c}"
      by (auto simp: Plus_def)
  next
    assume "\<exists>c v. u = c # v \<and> cset_mem items c \<and> v \<in> star {[c] | c. cset_mem items c}"
    then obtain c v where "u = [c] @ v" "cset_mem items c" "v \<in> star {[c] | c. cset_mem items c}"
      by auto
    then show "u \<in> lang (Plus (Cset items))"
      unfolding Plus_def lang.simps by blast
  qed
  also have "\<dots> \<longleftrightarrow> (\<exists>c v. u = c # v \<and> cset_mem items c \<and> (\<forall>d\<in>set v. cset_mem items d))"
    unfolding star_chars ..
  also have "\<dots> \<longleftrightarrow> u \<noteq> [] \<and> (\<forall>c\<in>set u. cset_mem items c)"
    by (cases u) auto
  finally show ?thesis .
qed

lemma anchor_free_Plus [simp]: "anchor_free (Plus r) = anchor_free r"
  by (simp add: Plus_def)

lemma re_match_Eol_end: "[] \<in> set (re_match n (Seq r Eol) s) \<longleftrightarrow> [] \<in> set (re_match n r s)"
  by (auto split: if_splits)

lemma fullmatch_anchored2:
  assumes "anchor_free r1" "anchor_free r2"
  shows "fullmatch (Seq Bol (Seq r1 (Seq r2 Eol))) s \<longleftrightarrow> (\<exists>u v. s = u @ v \<and> u \<in> lang r1 \<and> v \<in> lang r2)"
proof -
  have "fullmatch (Seq Bol (Seq r1 (Seq r2 Eol))) s \<longleftrightarrow>
        (\<exists>m\<in>set (re_match (length s) r1 s). [] \<in> set (re_match (length s) (Seq r2 Eol) m))"
    unfolding fullmatch_def by simp
  also have "\<dots> \<longleftrightarrow> (\<exists>m\<in>set (re_match (length s) r1 s). [] \<in> set (re_match (length s) r2 m))"
    unfolding re_match_Eol_end ..
  also have "\<dots> \<longleftrightarrow> (\<exists>m. (\<exists>u\<in>lang r1. s = u @ m) \<and> (\<exists>v\<in>lang r2. m = v @ []))"
    unfolding re_match_lang [OF assms(1)] re_match_lang [OF assms(2)] Bex_def ..
  also have "\<dots> \<longleftrightarrow> (\<exists>u v. s = u @ v \<and> u \<in> lang r1 \<and> v \<in> lang r2)"
    by (simp add: Bex_def) blast
  finally show ?thesis .
qed

lemma fullmatch_anchored1:
  assumes "anchor_free r"
  shows "fullmatch (Seq Bol (Seq r Eol)) s \<longleftrightarrow> s \<in> lang r"
proof -
  have "fullmatch (Seq Bol (Seq r Eol)) s \<longleftrightarrow> [] \<in> set (re_match (length s) (Seq r Eol) s)"
    unfolding fullmatch_def by simp
  also have "\<dots> \<longleftrightarrow> [] \<in> set (re_match (length s) r s)"
    unfolding re_match_Eol_end ..
  also have "\<dots> \<longleftrightarrow> s \<in> lang r"
    unfolding re_match_lang [OF assms] by simp
  finally show ?thesis .
qed


section \<open>What the two validators accept\<close>

lemma topic_first_cset:
  "cset_mem [Range (ord CHR ''a'') (ord CHR ''z''), Range (ord CHR ''A'') (ord CHR ''Z''),
             Range (ord CHR ''0'') (ord CHR ''9''), Lit (ord CHR ''_''), Lit (ord CHR ''-'')] c
   \<longleftrightarrow> topic_first_char c"
  by (auto simp: cset_mem_def topic_first_char_def ascii_letter_def ascii_digit_def)

lemma topic_suffix_cset:
  "cset_mem [Range (ord CHR ''a'') (ord CHR ''z''), Range (ord CHR ''A'') (ord CHR ''Z''),
             Range (ord CHR ''0'') (ord CHR ''9''), Lit (ord CHR ''_'')] c
   \<longleftrightarrow> topic_suffix_char c"
  by (auto simp: cset_mem_def topic_suffix_char_def ascii_letter_def ascii_digit_def)

lemma search_cset:
  "cset_mem [Range (ord CHR ''a'') (ord CHR ''z''), Range (ord CHR ''A'') (ord CHR ''Z''),
             Range (ord CHR ''0'') (ord CHR ''9''), Space,
             Lit (ord CHR ''.''), Lit (ord CHR '',''), Lit (ord CHR '':''), Lit (ord CHR ''/''),
             Lit quote, Lit dquote,
             Lit (ord CHR ''(''), Lit (ord CHR '')''), Lit (ord CHR ''[''), Lit (ord CHR '']''),
             Lit (ord CHR ''{''), Lit (ord CHR ''}''), Lit (ord CHR ''*''), Lit (ord CHR ''+''),
             Lit (ord CHR ''?''), Lit (ord CHR ''|''), Lit (ord CHR ''^''), Lit (ord CHR ''$''),
             Lit (ord CHR ''_''), Lit (ord CHR ''-'')] c
   \<longleftrightarrow> search_char c"
  unfolding cset_mem_def search_char_def search_punctuation_def ascii_letter_def ascii_digit_def py_def
  by (simp only: list_ex_Nil_iff list_ex_Cons_iff item_mem.simps list.map set_simps set_append insert_iff Un_iff empty_iff) blast

lemma dotted_segments:
  "w \<in> star (lang (Seq (Chr d) (Plus (Cset items)))) \<longleftrightarrow>
   (\<exists>segs. w = concat (map ((#) d) segs) \<and> (\<forall>t\<in>set segs. t \<noteq> [] \<and> (\<forall>c\<in>set t. cset_mem items c)))"
proof
  assume "w \<in> star (lang (Seq (Chr d) (Plus (Cset items))))"
  then obtain ws where ws: "w = concat ws" "set ws \<subseteq> lang (Seq (Chr d) (Plus (Cset items)))"
    unfolding star_concat by blast
  have each: "\<forall>x\<in>set ws. x = d # tl x \<and> tl x \<in> lang (Plus (Cset items))"
    using ws(2) by auto
  then have "ws = map ((#) d) (map tl ws)"
    by (induction ws) auto
  moreover have "\<forall>t\<in>set (map tl ws). t \<noteq> [] \<and> (\<forall>c\<in>set t. cset_mem items c)"
    using each unfolding lang_Plus_Cset by auto
  ultimately show "\<exists>segs. w = concat (map ((#) d) segs) \<and> (\<forall>t\<in>set segs. t \<noteq> [] \<and> (\<forall>c\<in>set t. cset_mem items c))"
    using ws(1) by metis
next
  assume "\<exists>segs. w = concat (map ((#) d) segs) \<and> (\<forall>t\<in>set segs. t \<noteq> [] \<and> (\<forall>c\<in>set t. cset_mem items c))"
  then obtain segs where segs: "w = concat (map ((#) d) segs)"
    "\<forall>t\<in>set segs. t \<in> lang (Plus (Cset items))"
    unfolding lang_Plus_Cset by blast
  have "set (map ((#) d) segs) \<subseteq> lang (Seq (Chr d) (Plus (Cset items)))"
    using segs(2) by auto
  with segs(1) show "w \<in> star (lang (Seq (Chr d) (Plus (Cset items))))"
    unfolding star_concat by blast
qed

lemma validate_topic_iff:
  "validate_topic s \<longleftrightarrow>
   (\<exists>h segs. s = h @ concat (map ((#) (ord CHR ''.'')) segs) \<and>
      h \<noteq> [] \<and> (\<forall>c\<in>set h. topic_first_char c) \<and>
      (\<forall>t\<in>set segs. t \<noteq> [] \<and> (\<forall>c\<in>set t. topic_suffix_char c)))"
  unfolding validate_topic_def ALLOWED_TOPIC_INPUT_def
  by (subst fullmatch_anchored2)
     (simp_all only: anchor_free.simps anchor_free_Plus lang.simps(6) dotted_segments lang_Plus_Cset
        topic_first_cset topic_suffix_cset, blast)

lemma validate_search_query_iff:
  "validate_search_query s \<longleftrightarrow> s \<noteq> [] \<and> (\<forall>c\<in>set s. search_char c)"
  unfolding validate_search_query_def ALLOWED_SEARCH_INPUT_def
  by (subst fullmatch_anchored1)
     (simp_all only: anchor_free.simps anchor_free_Plus lang_Plus_Cset search_cset)


lemma set_dotted:
  "c \<in> set (concat (map ((#) d) segs)) \<longleftrightarrow> segs \<noteq> [] \<and> (c = d \<or> (\<exists>t\<in>set segs. c \<in> set t))"
  by (induction segs) auto

lemma validate_topic_chars:
  assumes "validate_topic s" "c \<in> set s"
  shows "topic_first_char c \<or> c = ord CHR ''.''"
proof -
  from assms(1) obtain h segs where s: "s = h @ concat (map ((#) (ord CHR ''.'')) segs)"
    and h: "\<forall>c\<in>set h. topic_first_char c"
    and segs: "\<forall>t\<in>set segs. \<forall>c\<in>set t. topic_suffix_char c"
    unfolding validate_topic_iff by blast
  from assms(2) have "c \<in> set h \<or> c = ord CHR ''.'' \<or> (\<exists>t\<in>set segs. c \<in> set t)"
    unfolding s set_append Un_iff set_dotted by blast
  with h segs have "topic_first_char c \<or> c = ord CHR ''.'' \<or> topic_suffix_char c"
    by blast
  then show ?thesis by (auto simp: topic_first_char_def topic_suffix_char_def)
qed

lemmas literal_simps = py_def ord_def LF_def CR_def quote_def dquote_def

lemma metachar_not_topic:
  "c \<in> set shell_metachars \<Longrightarrow> \<not> (topic_first_char c \<or> c = ord CHR ''.'')"
  by (auto simp: shell_metachars_def topic_first_char_def ascii_letter_def ascii_digit_def literal_simps)

section \<open>Facts about the executor, substring search and line splitting\<close>

lemma contains_iff_sublist: "contains needle hay \<longleftrightarrow> sublist needle hay"
  by (induction hay) (auto simp: sublist_Cons_right)

lemma execute_call_completed:
  "run args = Inr p \<Longrightarrow>
   execute_call run args w =
     (let note1 = (if proc_stderr p \<noteq> []
                   then py ''Unexpected error encountered: '' @ proc_stderr p @ [LF] else []);
          note2 = (if contains (py ''No manual entry for '') (proc_stdout p)
                   then note1 @ proc_stdout p @ [LF] else note1);
          note3 = (if returncode p \<noteq> 0
                   then note2 @ py ''Non zero return code `'' @ str_int (returncode p) @ py ''`'' @ [LF]
                   else note2)
      in (Inr (if note3 \<noteq> []
               then Inl \<lparr>stdout = proc_stdout p, stderr = proc_stderr p,
                         return_code = returncode p, err_note = note3\<rparr>
               else Inr p),
          w\<lparr>sp_calls := sp_calls w @ [args]\<rparr>))"
  by (simp add: execute_call_def Let_def)

lemma execute_call_success:
  assumes "run args = Inr p" "returncode p = 0" "proc_stderr p = []"
    "\<not> contains (py ''No manual entry for '') (proc_stdout p)"
  shows "execute_call run args w = (Inr (Inr p), w\<lparr>sp_calls := sp_calls w @ [args]\<rparr>)"
  using assms by (simp add: execute_call_completed)



lemmas eval_match = validate_topic_def validate_search_query_def fullmatch_def
  ALLOWED_TOPIC_INPUT_def ALLOWED_SEARCH_INPUT_def Plus_def cset_mem_def re_match_Star
  py_isspace_def literal_simps

lemma contains_trans: "contains a b \<Longrightarrow> contains b c \<Longrightarrow> contains a c"
  unfolding contains_iff_sublist by (rule sublist_order.order.trans)

lemma contains_middle: "contains a (p @ a @ s)"
  unfolding contains_iff_sublist by simp

lemma splitlines_from_Cons:
  "splitlines_from cur (c # cs) =
     (if py_islinebreak c
      then cur # splitlines_from [] (if c = CR \<and> cs \<noteq> [] \<and> hd cs = LF then tl cs else cs)
      else splitlines_from (cur @ [c]) cs)"
  by (cases cs) simp_all

lemma splitlines_from_plain:
  "\<forall>c\<in>set l. \<not> py_islinebreak c \<Longrightarrow> splitlines_from cur (l @ t) = splitlines_from (cur @ l) t"
  by (induction l arbitrary: cur) (simp_all add: splitlines_from_Cons)

lemma splitlines_from_LF: "splitlines_from cur (LF # t) = cur # splitlines_from [] t"
  by (simp add: splitlines_from_Cons py_islinebreak_def LF_def CR_def)

lemma splitlines_lines:
  assumes "\<forall>l\<in>set ls. \<forall>c\<in>set l. \<not> py_islinebreak c" "\<forall>c\<in>set rest. \<not> py_islinebreak c"
  shows "splitlines (concat (map (\<lambda>l. l @ [LF]) ls) @ rest) = ls @ (if rest = [] then [] else [rest])"
  using assms(1) unfolding splitlines_def
proof (induction ls)
  case Nil
  have "splitlines_from [] (rest @ []) = splitlines_from ([] @ rest) []"
    using assms(2) by (rule splitlines_from_plain)
  then show ?case by simp
next
  case (Cons l ls)
  then have plain: "\<forall>c\<in>set l. \<not> py_islinebreak c" by simp
  let ?t = "concat (map (\<lambda>l. l @ [LF]) ls) @ rest"
  have "splitlines_from [] (l @ LF # ?t) = splitlines_from ([] @ l) (LF # ?t)"
    using plain by (rule splitlines_from_plain)
  also have "\<dots> = l # splitlines_from [] ?t"
    by (simp add: splitlines_from_LF)
  finally show ?case using Cons by simp
qed

section \<open>Input validation\<close>

text \<open>
  Claim C1. Every page argument of \<^verbatim>\<open>get_manpage\<close> that contains one of the shell
  metacharacters \<^verbatim>\<open>; | & $ ` ( ) < >\<close> or a newline is answered with the
  \<^verbatim>\<open>InputValidationError\<close> variant, carrying the page as given, and the state comes back
  as it was: the external program is not launched. This holds whatever the section and
  whatever the external program would have answered.
\<close>

theorem get_manpage_rejects_metachars:
  assumes "c \<in> set shell_metachars" "c \<in> set page"
  shows "\<exists>note. get_manpage run page section w =
           (Inr \<lparr>result = Invalid \<lparr>input = page, val_note = note\<rparr>\<rparr>, w)"
proof -
  have "\<not> validate_topic page"
    using assms validate_topic_chars metachar_not_topic by blast
  then show ?thesis
    by (simp add: get_manpage_def)
qed

theorem get_manpage_rejects_metachars_witness:
  "\<exists>note. get_manpage (completes_with \<lparr>returncode = 0, proc_stdout = py ''ok'', proc_stderr = []\<rparr>)
             (py ''$(reboot)'') None fresh =
           (Inr \<lparr>result = Invalid \<lparr>input = py ''$(reboot)'', val_note = note\<rparr>\<rparr>, fresh)"
  using get_manpage_rejects_metachars [of "ord CHR ''$''" "py ''$(reboot)''"]
  by (simp add: shell_metachars_def literal_simps)

text \<open>
  Claim C3. \<^verbatim>\<open>validate_topic\<close> accepts every string of the shape
  \<^verbatim>\<open>^[A-Za-z0-9_-]+(\.[A-Za-z0-9_]+)*$\<close>, that is a non-empty first segment \<open>h\<close> of
  letters, digits, underscores and hyphens followed by any number of segments, each a dot
  and a non-empty run of letters, digits and underscores; it rejects the empty string and
  every string that contains a space.
\<close>

theorem validate_topic_spec:
  "(h \<noteq> [] \<and> (\<forall>c\<in>set h. topic_first_char c) \<and>
      (\<forall>t\<in>set segs. t \<noteq> [] \<and> (\<forall>c\<in>set t. topic_suffix_char c))
      \<longrightarrow> validate_topic (h @ concat (map ((#) (ord CHR ''.'')) segs)))
   \<and> \<not> validate_topic []
   \<and> (ord CHR '' '' \<in> set s \<longrightarrow> \<not> validate_topic s)"
proof (intro conjI impI)
  assume "h \<noteq> [] \<and> (\<forall>c\<in>set h. topic_first_char c) \<and>
      (\<forall>t\<in>set segs. t \<noteq> [] \<and> (\<forall>c\<in>set t. topic_suffix_char c))"
  then show "validate_topic (h @ concat (map ((#) (ord CHR ''.'')) segs))"
    unfolding validate_topic_iff by blast
next
  show "\<not> validate_topic []"
    unfolding validate_topic_iff by simp
next
  assume sp: "ord CHR '' '' \<in> set s"
  have "\<not> (topic_first_char (ord CHR '' '') \<or> ord CHR '' '' = ord CHR ''.'')"
    by (simp add: topic_first_char_def ascii_letter_def ascii_digit_def ord_def)
  with sp show "\<not> validate_topic s"
    using validate_topic_chars by blast
qed

theorem validate_topic_spec_witness:
  "validate_topic (py ''bash.1.gz'') \<and> \<not> validate_topic [] \<and> \<not> validate_topic (py ''page with spaces'')"
  using validate_topic_spec [of "py ''bash''" "[py ''1'', py ''gz'']" "py ''page with spaces''"]
  by (simp add: py_def ord_def topic_first_char_def topic_suffix_char_def ascii_letter_def ascii_digit_def)

text \<open>
  Claim C4. \<^verbatim>\<open>validate_search_query\<close> accepts every string of length at least 1 made
  only of letters, digits, whitespace and the punctuation
  \<^verbatim>\<open>. , : / ' " ( ) [ ] { } * + ? | ^ $ _ -\<close>; it rejects every string that contains a
  backtick or a semicolon, and the empty string.
\<close>

theorem validate_search_query_spec:
  "(s \<noteq> [] \<and> (\<forall>c\<in>set s. search_char c) \<longrightarrow> validate_search_query s)
   \<and> (ord CHR ''`'' \<in> set t \<or> ord CHR '';'' \<in> set t \<longrightarrow> \<not> validate_search_query t)
   \<and> \<not> validate_search_query []"
proof -
  have "\<not> search_char (ord CHR ''`'')" "\<not> search_char (ord CHR '';'')"
    by (simp_all add: search_char_def search_punctuation_def ascii_letter_def ascii_digit_def
        py_isspace_def literal_simps)
  then show ?thesis
    unfolding validate_search_query_iff by auto
qed

theorem validate_search_query_spec_witness:
  "validate_search_query (py ''network.*(socket|bind)'')
   \<and> \<not> validate_search_query (py ''search; ls'')
   \<and> \<not> validate_search_query []"
  using validate_search_query_spec [of "py ''network.*(socket|bind)''" "py ''search; ls''"]
  by (simp add: search_char_def search_punctuation_def ascii_letter_def ascii_digit_def
        py_isspace_def literal_simps)

section \<open>The executor\<close>

text \<open>
  Claim C5. When the launch of the external program times out, \<^verbatim>\<open>execute_call\<close>
  returns a \<^verbatim>\<open>ManError\<close> with return code -1, empty stdout and stderr, and the note
  \<^verbatim>\<open>Timeout exception <cause>.\<close>, where the cause is the text of the timeout
  exception; the launch itself is recorded.
\<close>

theorem execute_call_timeout:
  "run args = Inl (TimeoutExpired ex) \<Longrightarrow>
   execute_call run args w =
     (Inr (Inl \<lparr>stdout = [], stderr = [], return_code = - 1,
                err_note = py ''Timeout exception '' @ ex @ py ''.''\<rparr>),
      w\<lparr>sp_calls := sp_calls w @ [args]\<rparr>)"
  by (simp add: execute_call_def)

theorem execute_call_timeout_witness:
  "execute_call (timing_out (py ''Command 'man ls' timed out after 5 seconds'')) [py ''man'', py ''ls''] fresh =
     (Inr (Inl \<lparr>stdout = [], stderr = [], return_code = - 1,
                err_note = py ''Timeout exception Command 'man ls' timed out after 5 seconds.''\<rparr>),
      \<lparr>sp_calls = [[py ''man'', py ''ls'']]\<rparr>)"
  using execute_call_timeout [of "timing_out (py ''Command 'man ls' timed out after 5 seconds'')"
      "[py ''man'', py ''ls'']" "py ''Command 'man ls' timed out after 5 seconds''" fresh]
  by (simp add: timing_out_def fresh_def py_def)



section \<open>\<^verbatim>\<open>get_manpage\<close>\<close>

text \<open>
  Claim C6. For a valid page name, when the external program completes with exit code 0,
  empty stderr and a stdout that does not contain \<^verbatim>\<open>No manual entry for \<close>,
  \<^verbatim>\<open>get_manpage\<close> returns a \<^verbatim>\<open>ManPage\<close> whose text is the captured stdout, unchanged.
\<close>

theorem get_manpage_returns_stdout:
  assumes "validate_topic page"
    and "run (if truthy section then [py ''man'', str_int (the section), page] else [py ''man'', page])
         = Inr \<lparr>returncode = 0, proc_stdout = out, proc_stderr = []\<rparr>"
    and "\<not> contains (py ''No manual entry for '') out"
  shows "fst (get_manpage run page section w) = Inr \<lparr>result = Page \<lparr>page_text = out\<rparr>\<rparr>"
proof -
  let ?args = "if truthy section then [py ''man'', str_int (the section), page] else [py ''man'', page]"
  have "execute_call run ?args w =
          (Inr (Inr \<lparr>returncode = 0, proc_stdout = out, proc_stderr = []\<rparr>),
           w\<lparr>sp_calls := sp_calls w @ [?args]\<rparr>)"
    using assms(2,3) by (intro execute_call_success) simp_all
  with assms(1) show ?thesis
    by (simp add: get_manpage_def Let_def)
qed

theorem get_manpage_returns_stdout_witness:
  "fst (get_manpage (completes_with \<lparr>returncode = 0, proc_stdout = py ''LS(1) User Commands LS(1)'',
                                     proc_stderr = []\<rparr>) (py ''ls'') None fresh)
   = Inr \<lparr>result = Page \<lparr>page_text = py ''LS(1) User Commands LS(1)''\<rparr>\<rparr>"
  using get_manpage_returns_stdout [of "py ''ls''"
      "completes_with \<lparr>returncode = 0, proc_stdout = py ''LS(1) User Commands LS(1)'', proc_stderr = []\<rparr>"
      None "py ''LS(1) User Commands LS(1)''" fresh]
  by (simp add: eval_match completes_with_def)

text \<open>
  Claim C7. When the external program completes with exit code 1 and a stdout that
  contains \<^verbatim>\<open>No manual entry for foo\<close>, \<^verbatim>\<open>get_manpage("foo")\<close> returns a
  \<^verbatim>\<open>ManError\<close> that carries the exit code 1 and the captured streams, and whose note
  contains both \<^verbatim>\<open>No manual entry for\<close> and the mention
  \<^verbatim>\<open>Non zero return code `1`\<close>.
\<close>

theorem get_manpage_no_manual_entry:
  assumes "run [py ''man'', py ''foo''] = Inr \<lparr>returncode = 1, proc_stdout = out, proc_stderr = err\<rparr>"
    and "contains (py ''No manual entry for foo'') out"
  shows "\<exists>e. fst (get_manpage run (py ''foo'') None w) = Inr \<lparr>result = Error e\<rparr>
           \<and> return_code e = 1 \<and> stdout e = out \<and> stderr e = err
           \<and> contains (py ''No manual entry for'') (err_note e)
           \<and> contains (py ''Non zero return code `1`'') (err_note e)"
proof -
  define note1 where "note1 = (if err \<noteq> [] then py ''Unexpected error encountered: '' @ err @ [LF] else [])"
  define note3 where "note3 = note1 @ out @ [LF] @ py ''Non zero return code `'' @ str_int 1 @ py ''`'' @ [LF]"
  define e where "e = \<lparr>stdout = out, stderr = err, return_code = 1, err_note = note3\<rparr>"
  have "contains (py ''No manual entry for '') (py ''No manual entry for foo'')"
    by (simp add: py_def)
  then have marker: "contains (py ''No manual entry for '') out"
    using assms(2) by (rule contains_trans)
  have "note3 \<noteq> []"
    by (simp add: note3_def)
  with marker have "execute_call run [py ''man'', py ''foo''] w =
      (Inr (Inl e), w\<lparr>sp_calls := sp_calls w @ [[py ''man'', py ''foo'']]\<rparr>)"
    using assms(1) by (simp add: execute_call_completed e_def note3_def note1_def)
  moreover have "validate_topic (py ''foo'')"
    by (simp add: eval_match)
  ultimately have "fst (get_manpage run (py ''foo'') None w) = Inr \<lparr>result = Error e\<rparr>"
    by (simp add: get_manpage_def)
  moreover have "contains (py ''No manual entry for'') (err_note e)"
  proof -
    have "contains (py ''No manual entry for'') (py ''No manual entry for foo'')"
      by (simp add: py_def)
    then have "contains (py ''No manual entry for'') out"
      using assms(2) by (rule contains_trans)
    moreover have "contains out (err_note e)"
      by (simp add: e_def note3_def contains_middle)
    ultimately show ?thesis by (rule contains_trans)
  qed
  moreover have "contains (py ''Non zero return code `1`'') (err_note e)"
  proof -
    have "err_note e = (note1 @ out @ [LF]) @ py ''Non zero return code `1`'' @ [LF]"
      by (simp add: e_def note3_def str_int_def py_def ord_def)
    then show ?thesis by (simp only: contains_middle)
  qed
  ultimately show ?thesis
    by (intro exI [of _ e]) (simp add: e_def)
qed

theorem get_manpage_no_manual_entry_witness:
  "\<exists>e. fst (get_manpage (completes_with \<lparr>returncode = 1, proc_stdout = py ''No manual entry for foo'',
                                          proc_stderr = []\<rparr>) (py ''foo'') None fresh)
          = Inr \<lparr>result = Error e\<rparr>
        \<and> return_code e = 1 \<and> stdout e = py ''No manual entry for foo'' \<and> stderr e = []
        \<and> contains (py ''No manual entry for'') (err_note e)
        \<and> contains (py ''Non zero return code `1`'') (err_note e)"
  using get_manpage_no_manual_entry [of
      "completes_with \<lparr>returncode = 1, proc_stdout = py ''No manual entry for foo'', proc_stderr = []\<rparr>"
      "py ''No manual entry for foo''" "[]" fresh]
  by (simp add: completes_with_def py_def)






section \<open>\<^verbatim>\<open>search_descriptions\<close>\<close>

text \<open>
  Claim C9. For a valid query, when the external program completes with exit code 0,
  empty stderr and a stdout without the marker \<^verbatim>\<open>No manual entry for \<close>,
  \<^verbatim>\<open>search_descriptions\<close> returns a \<^verbatim>\<open>ManSearchResult\<close> whose results are the lines
  of the captured stdout. When that stdout is a sequence of lines, each ended by a
  newline, followed by a possibly empty unterminated rest, the results are these lines in
  their order, duplicates included, followed by the rest only if it is not empty: a final
  newline adds no empty entry. For the stdout
  \<^verbatim>\<open>"ls (1) - list directory contents\n"\<close> the result holds that one line.
\<close>

theorem search_descriptions_lines:
  assumes "validate_search_query query"
    and "run [py ''man'', py ''-k'', query] = Inr \<lparr>returncode = 0, proc_stdout = out, proc_stderr = []\<rparr>"
    and "\<not> contains (py ''No manual entry for '') out"
  shows "fst (search_descriptions run query w) = Inr \<lparr>result = Search \<lparr>results = splitlines out\<rparr>\<rparr>
       \<and> (\<forall>ls rest. out = concat (map (\<lambda>l. l @ [LF]) ls) @ rest
              \<and> (\<forall>l\<in>set ls. \<forall>c\<in>set l. \<not> py_islinebreak c) \<and> (\<forall>c\<in>set rest. \<not> py_islinebreak c)
            \<longrightarrow> splitlines out = ls @ (if rest = [] then [] else [rest]))"
proof
  have "execute_call run [py ''man'', py ''-k'', query] w =
          (Inr (Inr \<lparr>returncode = 0, proc_stdout = out, proc_stderr = []\<rparr>),
           w\<lparr>sp_calls := sp_calls w @ [[py ''man'', py ''-k'', query]]\<rparr>)"
    using assms(2,3) by (intro execute_call_success) simp_all
  with assms(1) show "fst (search_descriptions run query w) = Inr \<lparr>result = Search \<lparr>results = splitlines out\<rparr>\<rparr>"
    by (simp add: search_descriptions_def)
next
  show "\<forall>ls rest. out = concat (map (\<lambda>l. l @ [LF]) ls) @ rest
              \<and> (\<forall>l\<in>set ls. \<forall>c\<in>set l. \<not> py_islinebreak c) \<and> (\<forall>c\<in>set rest. \<not> py_islinebreak c)
            \<longrightarrow> splitlines out = ls @ (if rest = [] then [] else [rest])"
    using splitlines_lines by blast
qed

theorem search_descriptions_lines_witness:
  "fst (search_descriptions
          (completes_with \<lparr>returncode = 0, proc_stdout = py ''ls (1) - list directory contents'' @ [LF],
                            proc_stderr = []\<rparr>) (py ''list'') fresh)
   = Inr \<lparr>result = Search \<lparr>results = [py ''ls (1) - list directory contents'']\<rparr>\<rparr>"
proof -
  let ?out = "py ''ls (1) - list directory contents'' @ [LF]"
  let ?run = "completes_with \<lparr>returncode = 0, proc_stdout = ?out, proc_stderr = []\<rparr>"
  have valid: "validate_search_query (py ''list'')"
    by (simp add: eval_match)
  have run: "?run [py ''man'', py ''-k'', py ''list''] = Inr \<lparr>returncode = 0, proc_stdout = ?out, proc_stderr = []\<rparr>"
    by (simp add: completes_with_def)
  have clean: "\<not> contains (py ''No manual entry for '') ?out"
    by (simp add: literal_simps)
  have shape: "?out = concat (map (\<lambda>l. l @ [LF]) [py ''ls (1) - list directory contents'']) @ []
      \<and> (\<forall>l\<in>set [py ''ls (1) - list directory contents'']. \<forall>c\<in>set l. \<not> py_islinebreak c)
      \<and> (\<forall>c\<in>set ([] :: pystr). \<not> py_islinebreak c)"
    by (simp add: literal_simps py_islinebreak_def)
  from search_descriptions_lines [of "py ''list''" ?run ?out fresh] valid run clean
  have res: "fst (search_descriptions ?run (py ''list'') fresh) = Inr \<lparr>result = Search \<lparr>results = splitlines ?out\<rparr>\<rparr>"
    and lines: "\<forall>ls rest. ?out = concat (map (\<lambda>l. l @ [LF]) ls) @ rest
              \<and> (\<forall>l\<in>set ls. \<forall>c\<in>set l. \<not> py_islinebreak c) \<and> (\<forall>c\<in>set rest. \<not> py_islinebreak c)
            \<longrightarrow> splitlines ?out = ls @ (if rest = [] then [] else [rest])"
    by blast+
  from lines [rule_format, OF shape]
  have "splitlines ?out = [py ''ls (1) - list directory contents'']"
    by simp
  with res show ?thesis by (simp only:)
qed

end
